theory Spec2Isabelle
  imports
    Complex_Main
    "HOL-Library.Product_Lexorder"
    "HOL-Library.Sublist"
    "HOL-Library.AList"
begin

section \<open>Tokyo Stock Price Explorer: the data pipeline of eros.py\<close>

text \<open>
  The script eros.py is one linear pipeline: load a table (from the market-data provider or
  from an uploaded CSV file), filter it by symbol and by date range, and hand the result to
  the CSV download button and to the chart. The table is a pandas DataFrame; the provider
  (yfinance), the CSV reader, the date parser and the widgets are external, and enter the
  model as parameters.
\<close>

subsection \<open>Dates, cells, rows and frames\<close>

text \<open>
  A \<open>datetime.date\<close> has a year, a month and a day, and Python compares two dates as
  it compares the triples (year, month, day): lexicographically. A timestamp is a date with
  a time of day (in seconds after midnight); \<open>.dt.date\<close> drops the time.
\<close>

datatype date = Date (date_year: int) (date_month: nat) (date_day: nat)

definition ymd :: "date \<Rightarrow> int \<times> nat \<times> nat" where
  "ymd d = (date_year d, date_month d, date_day d)"

instantiation date :: linorder
begin

definition less_eq_date :: "date \<Rightarrow> date \<Rightarrow> bool" where
  "less_eq_date d1 d2 \<longleftrightarrow> ymd d1 \<le> ymd d2"

definition less_date :: "date \<Rightarrow> date \<Rightarrow> bool" where
  "less_date d1 d2 \<longleftrightarrow> ymd d1 < ymd d2"

instance
proof
  fix x y z :: date
  show "x < y \<longleftrightarrow> x \<le> y \<and> \<not> y \<le> x"
    unfolding less_eq_date_def less_date_def by (rule less_le_not_le)
  show "x \<le> x"
    unfolding less_eq_date_def by (rule order_refl)
  show "x \<le> y \<Longrightarrow> y \<le> z \<Longrightarrow> x \<le> z"
    unfolding less_eq_date_def by (rule order_trans)
  show "x \<le> y \<Longrightarrow> y \<le> x \<Longrightarrow> x = y"
  proof -
    assume "x \<le> y" and "y \<le> x"
    then have "ymd x = ymd y"
      unfolding less_eq_date_def by (rule antisym)
    then show "x = y"
      by (cases x; cases y) (simp add: ymd_def)
  qed
  show "x \<le> y \<or> y \<le> x"
    unfolding less_eq_date_def by (rule linear)
qed

end

type_synonym timestamp = "date \<times> nat"

text \<open>
  A cell of a DataFrame: a number, a string, a timestamp, or one of the two missing-value
  markers (\<open>NaT\<close> in a datetime column, \<open>NaN\<close> elsewhere).
\<close>

datatype cell = Num real | Str string | Ts timestamp | NaT | NaN

text \<open>
  A row maps column names to cells, in column order. A frame has its column index and its
  rows, in row order. The row labels play no role: every column operation of the script
  combines columns of one and the same frame, so it works position by position.
\<close>

type_synonym row = "(string \<times> cell) list"

record dataframe =
  columns :: "string list"
  rows :: "row list"

datatype error =
    ValueError
  | KeyError string
  | TypeError
  | AttributeError

text \<open>What the script shows or hands over, in the order in which it does so.\<close>

datatype chart = Static | Interactive

datatype event =
    Warning string
  | Info string
  | Success string
  | Export dataframe
  | Render chart dataframe
  | ShowTable dataframe

datatype source = TokyoStockDataset | UploadCSV

text \<open>One daily bar of the provider's answer for one ticker.\<close>

record bar =
  bar_date :: timestamp
  bar_open :: real
  bar_high :: real
  bar_low :: real
  bar_close :: real
  bar_volume :: real

text \<open>
  The external collaborators. \<open>download\<close> is \<open>yf.download(ticker, start, end)\<close>: the
  bars of the window, or the message of the exception it raised. \<open>parse_datetime\<close> is
  the parser behind \<open>pd.to_datetime\<close> for a cell that is not yet a timestamp: \<open>None\<close>
  when it raises.
\<close>

record env =
  download :: "string \<Rightarrow> timestamp \<Rightarrow> timestamp \<Rightarrow> string + bar list"
  parse_datetime :: "cell \<Rightarrow> cell option"

text \<open>
  The widgets of the sidebar, as the values the user gives them. \<open>uploaded_file\<close> is the
  table \<open>pd.read_csv\<close> reads from the uploaded file, \<open>None\<close> when no file was given.
  \<open>selectbox\<close> returns the chosen one of the options it is given (\<open>None\<close> when there
  is no option); the two date inputs get the smallest and the largest date of the table.
\<close>

record ui =
  data_source :: source
  uploaded_file :: "dataframe option"
  selectbox :: "cell list \<Rightarrow> cell option"
  start_input :: "date option \<Rightarrow> date option \<Rightarrow> date"
  end_input :: "date option \<Rightarrow> date option \<Rightarrow> date"
  chart_type :: chart
  show_full :: bool

subsection \<open>Column operations\<close>

definition bind_err :: "error + 'a \<Rightarrow> ('a \<Rightarrow> error + 'b) \<Rightarrow> error + 'b" where
  "bind_err m f = (case m of Inl e \<Rightarrow> Inl e | Inr x \<Rightarrow> f x)"

fun traverse :: "('a \<Rightarrow> error + 'b) \<Rightarrow> 'a list \<Rightarrow> error + 'b list" where
  "traverse f [] = Inr []"
| "traverse f (x # xs) =
     (case f x of
        Inl e \<Rightarrow> Inl e
      | Inr y \<Rightarrow> (case traverse f xs of Inl e \<Rightarrow> Inl e | Inr ys \<Rightarrow> Inr (y # ys)))"

text \<open>A cell of a row; a column the row has no entry for reads as missing.\<close>

definition cell_at :: "row \<Rightarrow> string \<Rightarrow> cell" where
  "cell_at r c = (case map_of r c of None \<Rightarrow> NaN | Some v \<Rightarrow> v)"

text \<open>\<open>df[c]\<close>: KeyError when the frame has no such column.\<close>

definition col :: "dataframe \<Rightarrow> string \<Rightarrow> error + cell list" where
  "col df c =
     (if c \<in> set (columns df) then Inr (map (\<lambda>r. cell_at r c) (rows df))
      else Inl (KeyError c))"

text \<open>\<open>df[c] = values\<close>: replaces the column, or appends it as the last one.\<close>

definition set_col :: "dataframe \<Rightarrow> string \<Rightarrow> cell list \<Rightarrow> dataframe" where
  "set_col df c vs =
     df\<lparr>columns := (if c \<in> set (columns df) then columns df else columns df @ [c]),
        rows := map (\<lambda>(r, v). AList.update c v r) (zip (rows df) vs)\<rparr>"

text \<open>
  Subtraction of two price cells. A missing operand gives a missing difference. Operands
  that are not numeric are reported as TypeError, as pandas does for strings.
\<close>

fun cell_sub :: "cell \<Rightarrow> cell \<Rightarrow> error + cell" where
  "cell_sub (Num a) (Num b) = Inr (Num (a - b))"
| "cell_sub (Num a) NaN = Inr NaN"
| "cell_sub NaN (Num b) = Inr NaN"
| "cell_sub NaN NaN = Inr NaN"
| "cell_sub _ _ = Inl TypeError"

definition series_sub :: "cell list \<Rightarrow> cell list \<Rightarrow> error + cell list" where
  "series_sub xs ys = traverse (\<lambda>(x, y). cell_sub x y) (zip xs ys)"

text \<open>
  \<open>pd.to_datetime\<close> on one cell: a timestamp stays as it is, a missing value becomes
  \<open>NaT\<close>, anything else goes through the parser, which gives a timestamp or \<open>NaT\<close>, or
  raises.
\<close>

fun to_datetime_cell :: "(cell \<Rightarrow> cell option) \<Rightarrow> cell \<Rightarrow> error + cell" where
  "to_datetime_cell p (Ts t) = Inr (Ts t)"
| "to_datetime_cell p NaT = Inr NaT"
| "to_datetime_cell p NaN = Inr NaT"
| "to_datetime_cell p c =
     (case p c of
        None \<Rightarrow> Inl ValueError
      | Some (Ts t) \<Rightarrow> Inr (Ts t)
      | Some _ \<Rightarrow> Inr NaT)"

definition to_datetime :: "(cell \<Rightarrow> cell option) \<Rightarrow> cell list \<Rightarrow> error + cell list" where
  "to_datetime p cs = traverse (to_datetime_cell p) cs"

text \<open>\<open>Series.unique()\<close>: the distinct values in order of first appearance.\<close>

definition unique :: "'a list \<Rightarrow> 'a list" where
  "unique xs = rev (remdups (rev xs))"

text \<open>
  \<open>pd.concat(frames, axis=0)\<close>: the rows of the frames one after the other, under the
  union of their columns; ValueError when there is no frame.
\<close>

definition concat_frames :: "dataframe list \<Rightarrow> error + dataframe" where
  "concat_frames fs =
     (if fs = [] then Inl ValueError
      else Inr \<lparr>columns = unique (concat (map columns fs)), rows = concat (map rows fs)\<rparr>)"

subsection \<open>Remote mode: \<open>load_tokyo_data\<close>\<close>

definition start_date :: timestamp where
  "start_date = (Date 2023 4 1, 0)"

definition end_date :: timestamp where
  "end_date = (Date 2025 4 27, 0)"

definition companies :: "(string \<times> string) list" where
  "companies =
     [(''SONY'', ''6758.T''),
      (''TOYOTA'', ''7203.T''),
      (''HONDA'', ''7267.T''),
      (''MITSUBISHI CORP'', ''8058.T''),
      (''NISSAN MOTOR CORP'', ''7201.T''),
      (''NIPPON STEEL CORP'', ''5401.T''),
      (''HITACHI'', ''6501.T''),
      (''NINTENDO'', ''7974.T''),
      (''FUJITSU'', ''6702.T''),
      (''JAPAN AIRLINES'', ''9201.T'')]"

text \<open>
  \<open>data.reset_index()\<close> of the provider's answer: the date index becomes the first
  column, before the price columns.
\<close>

definition bar_row :: "bar \<Rightarrow> row" where
  "bar_row b =
     [(''Date'', Ts (bar_date b)),
      (''Open'', Num (bar_open b)),
      (''High'', Num (bar_high b)),
      (''Low'', Num (bar_low b)),
      (''Close'', Num (bar_close b)),
      (''Volume'', Num (bar_volume b))]"

definition reset_index :: "bar list \<Rightarrow> dataframe" where
  "reset_index bars =
     \<lparr>columns = [''Date'', ''Open'', ''High'', ''Low'', ''Close'', ''Volume''],
      rows = map bar_row bars\<rparr>"

definition failed_to_load :: "string \<Rightarrow> string \<Rightarrow> string" where
  "failed_to_load name msg = ''Failed to load '' @ name @ '': '' @ msg"

text \<open>
  The loop over the companies: a ticker whose download raises is skipped with a warning,
  the frame of any other ticker is tagged with the company name and collected.
\<close>

fun fetch_all :: "env \<Rightarrow> (string \<times> string) list \<Rightarrow> dataframe list \<times> event list" where
  "fetch_all e [] = ([], [])"
| "fetch_all e ((name, ticker) # cs) =
     (case fetch_all e cs of
        (frames, warnings) \<Rightarrow>
          (case download e ticker start_date end_date of
             Inl msg \<Rightarrow> (frames, Warning (failed_to_load name msg) # warnings)
           | Inr bars \<Rightarrow>
               (let data = reset_index bars;
                    data = set_col data ''Symbol'' (replicate (length (rows data)) (Str name))
                in (data # frames, warnings))))"

text \<open>The three column assignments after the concatenation.\<close>

definition transform :: "env \<Rightarrow> dataframe \<Rightarrow> error + dataframe" where
  "transform e df =
     bind_err (col df ''Close'') (\<lambda>close.
     bind_err (col df ''Open'') (\<lambda>opn.
     bind_err (series_sub close opn) (\<lambda>change.
     let df1 = set_col df ''Price_change'' change in
     bind_err (col df1 ''High'') (\<lambda>high.
     bind_err (col df1 ''Low'') (\<lambda>low.
     bind_err (series_sub high low) (\<lambda>spread.
     let df2 = set_col df1 ''High_Low_Spread'' spread in
     bind_err (col df2 ''Date'') (\<lambda>dates.
     bind_err (to_datetime (parse_datetime e) dates) (\<lambda>dts.
     Inr (set_col df2 ''Date'' dts)))))))))"

definition load_tokyo_data :: "env \<Rightarrow> (error + dataframe) \<times> event list" where
  "load_tokyo_data e =
     (case fetch_all e companies of
        (frames, warnings) \<Rightarrow>
          (bind_err (concat_frames frames) (transform e), warnings))"

subsection \<open>Upload mode, and the choice of the source\<close>

text \<open>
  The uploaded table is taken as read; only its Date column, when it has one, is converted.
\<close>

definition load_upload :: "env \<Rightarrow> dataframe \<Rightarrow> (error + dataframe) \<times> event list" where
  "load_upload e df =
     (if ''Date'' \<in> set (columns df) then
        (case bind_err (col df ''Date'') (to_datetime (parse_datetime e)) of
           Inl err \<Rightarrow> (Inl err, [])
         | Inr dts \<Rightarrow> (Inr (set_col df ''Date'' dts), [Success ''Custom dataset loaded!'']))
      else (Inr df, [Success ''Custom dataset loaded!'']))"

text \<open>
  The result \<open>Inr None\<close> is \<open>st.stop()\<close>: the script ends here, after the prompt.
\<close>

definition load_data :: "env \<Rightarrow> ui \<Rightarrow> (error + dataframe option) \<times> event list" where
  "load_data e u =
     (case data_source u of
        TokyoStockDataset \<Rightarrow>
          (case load_tokyo_data e of
             (r, evs) \<Rightarrow> (bind_err r (\<lambda>df. Inr (Some df)), evs))
      | UploadCSV \<Rightarrow>
          (case uploaded_file u of
             Some file \<Rightarrow>
               (case load_upload e file of
                  (r, evs) \<Rightarrow> (bind_err r (\<lambda>df. Inr (Some df)), evs))
           | None \<Rightarrow> (Inr None, [Info ''Please upload a CSV file to continue.''])))"

subsection \<open>The filters\<close>

text \<open>\<open>df[mask]\<close>: the rows at which the mask is true, in their order.\<close>

definition boolean_index :: "dataframe \<Rightarrow> bool list \<Rightarrow> dataframe" where
  "boolean_index df keep = df\<lparr>rows := map fst (filter snd (zip (rows df) keep))\<rparr>"

text \<open>
  \<open>==\<close> between a cell and the selected value: a missing value equals nothing, and no
  cell equals Python's \<open>None\<close>.
\<close>

fun cell_eq :: "cell \<Rightarrow> cell \<Rightarrow> bool" where
  "cell_eq (Num a) (Num b) = (a = b)"
| "cell_eq (Str a) (Str b) = (a = b)"
| "cell_eq (Ts a) (Ts b) = (a = b)"
| "cell_eq _ _ = False"

fun eq_selected :: "cell option \<Rightarrow> cell \<Rightarrow> bool" where
  "eq_selected None c = False"
| "eq_selected (Some s) c = cell_eq c s"

definition symbol_filter :: "dataframe \<Rightarrow> cell option \<Rightarrow> error + dataframe" where
  "symbol_filter df selected_stock =
     bind_err (col df ''Symbol'') (\<lambda>syms.
     Inr (boolean_index df (map (eq_selected selected_stock) syms)))"

definition select_symbol :: "ui \<Rightarrow> dataframe \<Rightarrow> error + dataframe" where
  "select_symbol u df =
     (if ''Symbol'' \<in> set (columns df) then
        bind_err (col df ''Symbol'') (\<lambda>syms.
        let symbols = unique syms;
            selected_stock = selectbox u symbols
        in symbol_filter df selected_stock)
      else Inr df)"

text \<open>
  The \<open>.dt\<close> accessor exists on a datetime column only: AttributeError when a cell is
  neither a timestamp nor \<open>NaT\<close>.
\<close>

fun dt_cell :: "cell \<Rightarrow> error + timestamp option" where
  "dt_cell (Ts t) = Inr (Some t)"
| "dt_cell NaT = Inr None"
| "dt_cell _ = Inl AttributeError"

definition datetimes :: "cell list \<Rightarrow> error + timestamp option list" where
  "datetimes cs = traverse dt_cell cs"

text \<open>\<open>.min()\<close> and \<open>.max()\<close> skip missing values; of nothing they are \<open>NaT\<close>.\<close>

definition series_min :: "timestamp option list \<Rightarrow> timestamp option" where
  "series_min ts =
     (case List.map_filter id ts of [] \<Rightarrow> None | t # rest \<Rightarrow> Some (fold min rest t))"

definition series_max :: "timestamp option list \<Rightarrow> timestamp option" where
  "series_max ts =
     (case List.map_filter id ts of [] \<Rightarrow> None | t # rest \<Rightarrow> Some (fold max rest t))"

text \<open>
  One entry of the mask \<open>(date >= user_start) & (date <= user_end)\<close>; both comparisons are
  false at \<open>NaT\<close>.
\<close>

fun in_range :: "date \<Rightarrow> date \<Rightarrow> timestamp option \<Rightarrow> bool" where
  "in_range user_start user_end None = False"
| "in_range user_start user_end (Some t) = (fst t \<ge> user_start \<and> fst t \<le> user_end)"

definition date_filter :: "dataframe \<Rightarrow> date \<Rightarrow> date \<Rightarrow> error + dataframe" where
  "date_filter df user_start user_end =
     bind_err (col df ''Date'') (\<lambda>dates.
     bind_err (datetimes dates) (\<lambda>ts.
     Inr (boolean_index df (map (in_range user_start user_end) ts))))"

text \<open>
  The two filters with their parameters given: the symbol filter when the table has a
  Symbol column, then the date filter.
\<close>

definition select_rows :: "dataframe \<Rightarrow> cell option \<Rightarrow> date \<Rightarrow> date \<Rightarrow> error + dataframe" where
  "select_rows df selected_stock user_start user_end =
     bind_err
       (if ''Symbol'' \<in> set (columns df) then symbol_filter df selected_stock else Inr df)
       (\<lambda>df1. date_filter df1 user_start user_end)"

subsection \<open>The script after loading, and the whole run\<close>

definition explore :: "ui \<Rightarrow> dataframe \<Rightarrow> (error + dataframe) \<times> event list" where
  "explore u df =
     (case
        bind_err (select_symbol u df) (\<lambda>df1.
        bind_err (col df1 ''Date'') (\<lambda>dates.
        bind_err (datetimes dates) (\<lambda>ts.
        let min_date = map_option fst (series_min ts);
            max_date = map_option fst (series_max ts);
            user_start = start_input u min_date max_date;
            user_end = end_input u min_date max_date
        in date_filter df1 user_start user_end)))
      of
        Inl err \<Rightarrow> (Inl err, [])
      | Inr df2 \<Rightarrow>
          (Inr df2,
           [Export df2, Render (chart_type u) df2] @
           (if show_full u then [ShowTable df2] else [])))"

datatype outcome = Stopped | Completed dataframe

definition run :: "env \<Rightarrow> ui \<Rightarrow> (error + outcome) \<times> event list" where
  "run e u =
     (case load_data e u of
        (Inl err, evs) \<Rightarrow> (Inl err, evs)
      | (Inr None, evs) \<Rightarrow> (Inr Stopped, evs)
      | (Inr (Some df), evs) \<Rightarrow>
          (case explore u df of
             (Inl err, evs') \<Rightarrow> (Inl err, evs @ evs')
           | (Inr df', evs') \<Rightarrow> (Inr (Completed df'), evs @ evs')))"

subsection \<open>Notions used in the statements\<close>

text \<open>The timestamp in the Date cell of a row, if there is one.\<close>

definition row_datetime :: "row \<Rightarrow> timestamp option" where
  "row_datetime r = (case cell_at r ''Date'' of Ts t \<Rightarrow> Some t | _ \<Rightarrow> None)"

definition datetime_like :: "cell \<Rightarrow> bool" where
  "datetime_like c = (case c of Ts t \<Rightarrow> True | NaT \<Rightarrow> True | _ \<Rightarrow> False)"

text \<open>A value that is not a missing-value marker.\<close>

definition notna :: "cell \<Rightarrow> bool" where
  "notna c = (c \<noteq> NaN \<and> c \<noteq> NaT)"

text \<open>The rows that pass the symbol step of \<open>select_rows\<close>.\<close>

definition kept :: "dataframe \<Rightarrow> cell option \<Rightarrow> row list" where
  "kept df sel =
     (if ''Symbol'' \<in> set (columns df)
      then filter (\<lambda>r. eq_selected sel (cell_at r ''Symbol'')) (rows df) else rows df)"

text \<open>
  The row of one bar after the company name has been attached, and after the two derived
  columns have been added; the bars the loop collects, each with its company name; the
  columns of a collected frame.
\<close>

definition tagged_row :: "string \<Rightarrow> bar \<Rightarrow> row" where
  "tagged_row name b = bar_row b @ [(''Symbol'', Str name)]"

definition loaded_row :: "string \<Rightarrow> bar \<Rightarrow> row" where
  "loaded_row name b =
     tagged_row name b @
     [(''Price_change'', Num (bar_close b - bar_open b)),
      (''High_Low_Spread'', Num (bar_high b - bar_low b))]"

fun fetched :: "env \<Rightarrow> (string \<times> string) list \<Rightarrow> (string \<times> bar) list" where
  "fetched e [] = []"
| "fetched e ((name, ticker) # cs) =
     (case download e ticker start_date end_date of
        Inl msg \<Rightarrow> []
      | Inr bars \<Rightarrow> map (Pair name) bars) @ fetched e cs"

definition price_columns :: "string list" where
  "price_columns = [''Date'', ''Open'', ''High'', ''Low'', ''Close'', ''Volume'', ''Symbol'']"

text \<open>
  The two derived columns of a row hold what the subtraction of the script gives on the
  price columns of that row.
\<close>

definition derived_ok :: "row \<Rightarrow> bool" where
  "derived_ok r \<longleftrightarrow>
     cell_sub (cell_at r ''Close'') (cell_at r ''Open'') = Inr (cell_at r ''Price_change'') \<and>
     cell_sub (cell_at r ''High'') (cell_at r ''Low'') = Inr (cell_at r ''High_Low_Spread'')"

subsection \<open>Sample inputs\<close>

text \<open>
  A provider that has one bar for Nintendo and fails for every other ticker, a provider that
  fails for every ticker, a date parser that knows two dates, and a user who leaves every
  widget at its default.
\<close>

definition sample_bar :: bar where
  "sample_bar =
     \<lparr>bar_date = (Date 2024 3 4, 0), bar_open = 100, bar_high = 110, bar_low = 95,
      bar_close = 105, bar_volume = 1000\<rparr>"

definition sample_download :: "string \<Rightarrow> timestamp \<Rightarrow> timestamp \<Rightarrow> string + bar list" where
  "sample_download ticker s e = (if ticker = ''7974.T'' then Inr [sample_bar] else Inl ''no data'')"

definition failing_download :: "string \<Rightarrow> timestamp \<Rightarrow> timestamp \<Rightarrow> string + bar list" where
  "failing_download ticker s e = Inl ''no data''"

definition sample_parse :: "cell \<Rightarrow> cell option" where
  "sample_parse c =
     (if c = Str ''2024-03-04'' then Some (Ts (Date 2024 3 4, 0))
      else if c = Str ''2024-03-05'' then Some (Ts (Date 2024 3 5, 0))
      else None)"

definition sample_env :: env where
  "sample_env = \<lparr>download = sample_download, parse_datetime = sample_parse\<rparr>"

definition offline_env :: env where
  "offline_env = \<lparr>download = failing_download, parse_datetime = sample_parse\<rparr>"

definition first_option :: "cell list \<Rightarrow> cell option" where
  "first_option opts = (case opts of [] \<Rightarrow> None | x # _ \<Rightarrow> Some x)"

definition default_date :: "date option \<Rightarrow> date" where
  "default_date v = (case v of None \<Rightarrow> Date 1970 1 1 | Some d \<Rightarrow> d)"

definition sample_ui :: "source \<Rightarrow> dataframe option \<Rightarrow> ui" where
  "sample_ui src file =
     \<lparr>data_source = src, uploaded_file = file, selectbox = first_option,
      start_input = (\<lambda>min_date max_date. default_date min_date),
      end_input = (\<lambda>min_date max_date. default_date max_date),
      chart_type = Static, show_full = False\<rparr>"

definition upload_prices :: dataframe where
  "upload_prices =
     \<lparr>columns = [''Date'', ''Open'', ''High'', ''Low'', ''Close''],
      rows = [[(''Date'', Str ''2024-03-04''), (''Open'', Num 1), (''High'', Num 4),
               (''Low'', Num 1), (''Close'', Num 3)]]\<rparr>"

definition upload_prices_loaded :: dataframe where
  "upload_prices_loaded =
     \<lparr>columns = [''Date'', ''Open'', ''High'', ''Low'', ''Close''],
      rows = [[(''Date'', Ts (Date 2024 3 4, 0)), (''Open'', Num 1), (''High'', Num 4),
               (''Low'', Num 1), (''Close'', Num 3)]]\<rparr>"

definition upload_no_date :: dataframe where
  "upload_no_date = \<lparr>columns = [''Close''], rows = [[(''Close'', Num 3)]]\<rparr>"

definition sample_loaded :: dataframe where
  "sample_loaded =
     \<lparr>columns = [''Date'', ''Open'', ''High'', ''Low'', ''Close'', ''Volume'', ''Symbol'',
                 ''Price_change'', ''High_Low_Spread''],
      rows = [[(''Date'', Ts (Date 2024 3 4, 0)), (''Open'', Num 100), (''High'', Num 110),
               (''Low'', Num 95), (''Close'', Num 105), (''Volume'', Num 1000),
               (''Symbol'', Str ''NINTENDO''), (''Price_change'', Num 5),
               (''High_Low_Spread'', Num 15)]]\<rparr>"

definition day1_row :: row where
  "day1_row = [(''Date'', Ts (Date 2024 3 4, 0)), (''Close'', Num 105), (''Symbol'', Str ''SONY'')]"

definition other_row :: row where
  "other_row = [(''Date'', Ts (Date 2024 3 4, 0)), (''Close'', Num 2000), (''Symbol'', Str ''TOYOTA'')]"

definition day2_row :: row where
  "day2_row = [(''Date'', Ts (Date 2024 3 5, 55800)), (''Close'', Num 107), (''Symbol'', Str ''SONY'')]"

definition two_symbols :: dataframe where
  "two_symbols = \<lparr>columns = [''Date'', ''Close'', ''Symbol''], rows = [day1_row, other_row, day2_row]\<rparr>"

definition sony_rows :: dataframe where
  "sony_rows = \<lparr>columns = [''Date'', ''Close'', ''Symbol''], rows = [day1_row, day2_row]\<rparr>"

section \<open>Properties\<close>

subsection \<open>Results, column operations and masks\<close>

lemma bind_err_Inr_iff:
  "bind_err m f = Inr y \<longleftrightarrow> (\<exists>x. m = Inr x \<and> f x = Inr y)"
  by (cases m) (simp_all add: bind_err_def)

lemma bind_err_simps [simp]:
  "bind_err (Inl err) f = Inl err"
  "bind_err (Inr x) f = f x"
  by (simp_all add: bind_err_def)

lemma traverse_Inr_iff:
  "traverse f xs = Inr ys \<longleftrightarrow> list_all2 (\<lambda>x y. f x = Inr y) xs ys"
proof (induction xs arbitrary: ys)
  case Nil
  show ?case by auto
next
  case (Cons x xs)
  show ?case
    by (auto simp: list_all2_Cons1 Cons.IH [symmetric] split: sum.splits)
qed

lemma list_all2_graph:
  "list_all2 (\<lambda>x y. A x \<and> y = h x) xs ys \<longleftrightarrow> (\<forall>x\<in>set xs. A x) \<and> ys = map h xs"
  by (induction xs arbitrary: ys) (auto simp: list_all2_Cons1)

lemma mask_filter:
  "map fst (filter snd (zip xs (map p xs))) = filter p xs"
  by (induction xs) simp_all

lemma boolean_index_map:
  "boolean_index df (map p (map f (rows df))) = df\<lparr>rows := filter (\<lambda>r. p (f r)) (rows df)\<rparr>"
  using mask_filter [of "rows df" "\<lambda>r. p (f r)"] by (simp add: boolean_index_def comp_def)

lemma dt_cell_Inr_iff:
  "dt_cell c = Inr t \<longleftrightarrow>
     datetime_like c \<and> t = (case c of Ts t \<Rightarrow> Some t | _ \<Rightarrow> None)"
  by (cases c) (auto simp: datetime_like_def)

lemma datetimes_col_iff:
  "datetimes (map (\<lambda>r. cell_at r ''Date'') rs) = Inr ts \<longleftrightarrow>
     (\<forall>r\<in>set rs. datetime_like (cell_at r ''Date'')) \<and> ts = map row_datetime rs"
proof -
  have "datetimes (map (\<lambda>r. cell_at r ''Date'') rs) = Inr ts \<longleftrightarrow>
        list_all2 (\<lambda>r t. datetime_like (cell_at r ''Date'') \<and> t = row_datetime r) rs ts"
    by (simp add: datetimes_def traverse_Inr_iff list_all2_map1 dt_cell_Inr_iff
        row_datetime_def)
  then show ?thesis
    by (simp add: list_all2_graph)
qed

lemma zip_map_same: "zip (map f xs) (map g xs) = map (\<lambda>x. (f x, g x)) xs"
  by (induction xs) simp_all

lemma zip_replicate_length: "zip xs (replicate (length xs) v) = map (\<lambda>x. (x, v)) xs"
  by (induction xs) simp_all

lemma col_rows_map:
  "c \<in> set (columns df) \<Longrightarrow> rows df = map f xs \<Longrightarrow>
     col df c = Inr (map (\<lambda>x. cell_at (f x) c) xs)"
  by (simp add: col_def comp_def)

lemma set_col_rows_map:
  "rows df = map f xs \<Longrightarrow>
     rows (set_col df c (map g xs)) = map (\<lambda>x. AList.update c (g x) (f x)) xs"
  by (simp add: set_col_def zip_map_same comp_def)

lemma set_col_columns: "set (columns (set_col df c vs)) = insert c (set (columns df))"
  by (auto simp: set_col_def)

lemma series_sub_map:
  "(\<And>x. x \<in> set xs \<Longrightarrow> cell_sub (f x) (g x) = Inr (h x)) \<Longrightarrow>
     series_sub (map f xs) (map g xs) = Inr (map h xs)"
  unfolding series_sub_def by (induction xs) simp_all

lemma to_datetime_map:
  "(\<And>x. x \<in> set xs \<Longrightarrow> to_datetime_cell p (f x) = Inr (h x)) \<Longrightarrow>
     to_datetime p (map f xs) = Inr (map h xs)"
  unfolding to_datetime_def by (induction xs) simp_all

lemma set_unique [simp]: "set (unique xs) = set xs"
  by (simp add: unique_def)

subsection \<open>The date filter\<close>

lemma date_filter_Inr_iff:
  "date_filter df us ue = Inr d \<longleftrightarrow>
     ''Date'' \<in> set (columns df) \<and>
     (\<forall>r\<in>set (rows df). datetime_like (cell_at r ''Date'')) \<and>
     d = df\<lparr>rows := filter (\<lambda>r. in_range us ue (row_datetime r)) (rows df)\<rparr>"
proof (cases "''Date'' \<in> set (columns df)")
  case False
  then show ?thesis by (simp add: date_filter_def col_def)
next
  case True
  show ?thesis
    using True boolean_index_map [of df "in_range us ue" row_datetime]
    by (auto simp: date_filter_def col_def bind_err_Inr_iff datetimes_col_iff)
qed

lemma in_range_row:
  "in_range us ue (row_datetime r) \<longleftrightarrow>
     (\<exists>t. cell_at r ''Date'' = Ts t \<and> us \<le> fst t \<and> fst t \<le> ue)"
  by (cases "cell_at r ''Date''") (simp_all add: row_datetime_def)

lemma sample_dates:
  "Date 2024 3 4 \<le> Date 2024 3 5" "\<not> Date 2024 3 5 \<le> Date 2024 3 4"
  "Date 2024 3 4 \<le> Date 2024 3 4" "Date 2024 3 5 \<le> Date 2024 3 5"
  by (simp_all add: less_eq_date_def ymd_def)

lemma date_filter_returns:
  assumes "''Date'' \<in> set (columns df)"
    and "\<forall>r\<in>set (rows df). datetime_like (cell_at r ''Date'')"
  shows "\<exists>d. date_filter df us ue = Inr d \<and> columns d = columns df \<and>
           rows d = filter (\<lambda>r. in_range us ue (row_datetime r)) (rows df)"
proof -
  let ?d = "df\<lparr>rows := filter (\<lambda>r. in_range us ue (row_datetime r)) (rows df)\<rparr>"
  have "date_filter df us ue = Inr ?d"
    unfolding date_filter_Inr_iff using assms by blast
  moreover have "columns ?d = columns df" by simp
  moreover have "rows ?d = filter (\<lambda>r. in_range us ue (row_datetime r)) (rows df)" by simp
  ultimately show ?thesis by blast
qed

lemma sample_datetime_like:
  "\<forall>r\<in>set (rows two_symbols). datetime_like (cell_at r ''Date'')"
  by (simp add: two_symbols_def day1_row_def day2_row_def other_row_def cell_at_def
      datetime_like_def)

lemma sample_rows_first_day:
  "filter (\<lambda>r. in_range (Date 2024 3 4) (Date 2024 3 4) (row_datetime r)) (rows two_symbols)
     = [day1_row, other_row]"
  by (simp add: two_symbols_def day1_row_def day2_row_def other_row_def cell_at_def
      row_datetime_def less_eq_date_def ymd_def)

lemma sample_rows_second_day:
  "filter (\<lambda>r. in_range (Date 2024 3 5) (Date 2024 3 5) (row_datetime r)) (rows two_symbols)
     = [day2_row]"
  by (simp add: two_symbols_def day1_row_def day2_row_def other_row_def cell_at_def
      row_datetime_def less_eq_date_def ymd_def)

text \<open>
  C5, as the script has it. On a table whose Date column holds timestamps (or \<open>NaT\<close>),
  which is what every loaded table with a Date column has, the date filter returns, and
  it returns exactly the rows whose date lies between the start date and the end date, both
  included: every row it keeps is a row of the table with such a date, and, when the start
  date is not after the end date, every row whose date is the start date or the end date
  is kept. The two date inputs are independent widgets, and nothing orders them.
\<close>

theorem date_filter_inclusive:
  assumes "''Date'' \<in> set (columns df)"
    and "\<forall>r\<in>set (rows df). datetime_like (cell_at r ''Date'')"
  shows "\<exists>d. date_filter df user_start user_end = Inr d \<and>
           columns d = columns df \<and>
           rows d = filter (\<lambda>r. in_range user_start user_end (row_datetime r)) (rows df) \<and>
           (\<forall>r\<in>set (rows d). r \<in> set (rows df) \<and>
              (\<exists>t. cell_at r ''Date'' = Ts t \<and> user_start \<le> fst t \<and> fst t \<le> user_end)) \<and>
           (user_start \<le> user_end \<longrightarrow>
              (\<forall>r\<in>set (rows df). \<forall>t. cell_at r ''Date'' = Ts t \<and>
                 (fst t = user_start \<or> fst t = user_end) \<longrightarrow> r \<in> set (rows d)))"
proof -
  obtain d where d: "date_filter df user_start user_end = Inr d"
    and cd: "columns d = columns df"
    and rd: "rows d = filter (\<lambda>r. in_range user_start user_end (row_datetime r)) (rows df)"
    using date_filter_returns [OF assms] by blast
  have kept: "\<forall>r\<in>set (rows d). r \<in> set (rows df) \<and>
      (\<exists>t. cell_at r ''Date'' = Ts t \<and> user_start \<le> fst t \<and> fst t \<le> user_end)"
    unfolding rd by (simp add: in_range_row)
  have bounds: "user_start \<le> user_end \<longrightarrow>
      (\<forall>r\<in>set (rows df). \<forall>t. cell_at r ''Date'' = Ts t \<and>
         (fst t = user_start \<or> fst t = user_end) \<longrightarrow> r \<in> set (rows d))"
  proof (intro impI ballI allI)
    fix r t
    assume le: "user_start \<le> user_end" and r: "r \<in> set (rows df)"
      and t: "cell_at r ''Date'' = Ts t \<and> (fst t = user_start \<or> fst t = user_end)"
    have "user_start \<le> fst t \<and> fst t \<le> user_end"
      using le t by (elim conjE disjE) simp_all
    then have "in_range user_start user_end (row_datetime r)"
      unfolding in_range_row using t by blast
    then show "r \<in> set (rows d)"
      unfolding rd using r by simp
  qed
  show ?thesis
    using d cd rd kept bounds by blast
qed

theorem date_filter_inclusive_witness:
  "''Date'' \<in> set (columns two_symbols) \<and>
   list_all (\<lambda>r. datetime_like (cell_at r ''Date'')) (rows two_symbols) \<and>
   Date 2024 3 4 \<le> Date 2024 3 4 \<and>
   cell_at day1_row ''Date'' = Ts (Date 2024 3 4, 0) \<and>
   (\<exists>d. date_filter two_symbols (Date 2024 3 4) (Date 2024 3 4) = Inr d \<and>
      rows d = [day1_row, other_row])"
proof -
  have c: "''Date'' \<in> set (columns two_symbols)"
    by (simp add: two_symbols_def)
  have l: "\<forall>r\<in>set (rows two_symbols). datetime_like (cell_at r ''Date'')"
    by (rule sample_datetime_like)
  have l': "list_all (\<lambda>r. datetime_like (cell_at r ''Date'')) (rows two_symbols)"
    using l by (simp only: list_all_iff)
  have t: "cell_at day1_row ''Date'' = Ts (Date 2024 3 4, 0)"
    by (simp add: cell_at_def day1_row_def)
  obtain d where d: "date_filter two_symbols (Date 2024 3 4) (Date 2024 3 4) = Inr d"
    and r: "rows d = filter (\<lambda>r. in_range (Date 2024 3 4) (Date 2024 3 4) (row_datetime r))
        (rows two_symbols)"
    using date_filter_inclusive [OF c l, of "Date 2024 3 4" "Date 2024 3 4"] by blast
  have "rows d = [day1_row, other_row]"
    using r by (simp only: sample_rows_first_day)
  with d have "\<exists>d. date_filter two_symbols (Date 2024 3 4) (Date 2024 3 4) = Inr d \<and>
      rows d = [day1_row, other_row]"
    by blast
  with c l' t sample_dates(3) show ?thesis
    by (intro conjI)
qed

text \<open>
  C5 as it is written, for every start date and every end date, fails: with the start
  date one day after the end date, the row dated at the start date is dropped, as is every
  other row. Both dates lie between the smallest and the largest date of the table, so the
  two widgets accept them.
\<close>

theorem date_filter_reversed_bounds:
  "cell_at day2_row ''Date'' = Ts (Date 2024 3 5, 55800) \<and>
   day2_row \<in> set (rows two_symbols) \<and>
   date_filter two_symbols (Date 2024 3 5) (Date 2024 3 4) = Inr (two_symbols\<lparr>rows := []\<rparr>)"
  by (simp add: date_filter_def two_symbols_def day1_row_def day2_row_def other_row_def
      col_def cell_at_def datetimes_def boolean_index_def less_eq_date_def ymd_def)

text \<open>
  C10. The date filter looks at the calendar date of a timestamp only: on a table whose
  Date column holds timestamps (or \<open>NaT\<close>) it returns, and a row with a timestamp in its
  Date cell is kept exactly when its calendar date lies between the start date and the end
  date, whatever its time of day is.
\<close>

theorem date_filter_calendar_date:
  assumes "''Date'' \<in> set (columns df)"
    and "\<forall>r\<in>set (rows df). datetime_like (cell_at r ''Date'')"
    and "r \<in> set (rows df)"
    and "cell_at r ''Date'' = Ts (day, time_of_day)"
  shows "\<exists>d. date_filter df user_start user_end = Inr d \<and>
           rows d = filter (\<lambda>r. in_range user_start user_end (row_datetime r)) (rows df) \<and>
           (r \<in> set (rows d) \<longleftrightarrow> user_start \<le> day \<and> day \<le> user_end)"
proof -
  obtain d where d: "date_filter df user_start user_end = Inr d"
    and rd: "rows d = filter (\<lambda>r. in_range user_start user_end (row_datetime r)) (rows df)"
    using date_filter_returns [OF assms(1,2)] by blast
  have "in_range user_start user_end (row_datetime r) \<longleftrightarrow> user_start \<le> day \<and> day \<le> user_end"
    unfolding in_range_row using assms(4) by simp
  then have "r \<in> set (rows d) \<longleftrightarrow> user_start \<le> day \<and> day \<le> user_end"
    unfolding rd using assms(3) by simp
  then show ?thesis
    using d rd by blast
qed

theorem date_filter_calendar_date_witness:
  "''Date'' \<in> set (columns two_symbols) \<and>
   list_all (\<lambda>r. datetime_like (cell_at r ''Date'')) (rows two_symbols) \<and>
   day2_row \<in> set (rows two_symbols) \<and>
   cell_at day2_row ''Date'' = Ts (Date 2024 3 5, 55800) \<and>
   Date 2024 3 5 \<le> Date 2024 3 5 \<and>
   (\<exists>d. date_filter two_symbols (Date 2024 3 5) (Date 2024 3 5) = Inr d \<and>
      rows d = [day2_row])"
proof -
  have c: "''Date'' \<in> set (columns two_symbols)"
    by (simp add: two_symbols_def)
  have l: "\<forall>r\<in>set (rows two_symbols). datetime_like (cell_at r ''Date'')"
    by (rule sample_datetime_like)
  have l': "list_all (\<lambda>r. datetime_like (cell_at r ''Date'')) (rows two_symbols)"
    using l by (simp only: list_all_iff)
  have m: "day2_row \<in> set (rows two_symbols)"
    by (simp add: two_symbols_def)
  have t: "cell_at day2_row ''Date'' = Ts (Date 2024 3 5, 55800)"
    by (simp add: cell_at_def day2_row_def)
  obtain d where d: "date_filter two_symbols (Date 2024 3 5) (Date 2024 3 5) = Inr d"
    and r: "rows d = filter (\<lambda>r. in_range (Date 2024 3 5) (Date 2024 3 5) (row_datetime r))
        (rows two_symbols)"
    using date_filter_calendar_date [OF c l m t, of "Date 2024 3 5" "Date 2024 3 5"] by blast
  have "rows d = [day2_row]"
    using r by (simp only: sample_rows_second_day)
  with d have "\<exists>d. date_filter two_symbols (Date 2024 3 5) (Date 2024 3 5) = Inr d \<and>
      rows d = [day2_row]"
    by blast
  with c l' m t sample_dates(4) show ?thesis
    by (intro conjI)
qed

subsection \<open>The symbol filter\<close>

lemma symbol_filter_Inr_iff:
  "symbol_filter df sel = Inr d \<longleftrightarrow>
     ''Symbol'' \<in> set (columns df) \<and>
     d = df\<lparr>rows := filter (\<lambda>r. eq_selected sel (cell_at r ''Symbol'')) (rows df)\<rparr>"
  using boolean_index_map [of df "eq_selected sel" "\<lambda>r. cell_at r ''Symbol''"]
  by (auto simp: symbol_filter_def col_def)

lemma cell_eq_imp_eq: "cell_eq c s \<Longrightarrow> c = s"
  by (cases c; cases s) simp_all

lemma cell_eq_notna: "notna s \<Longrightarrow> cell_eq c s \<longleftrightarrow> c = s"
  by (cases c; cases s) (simp_all add: notna_def)

lemma eq_selected_imp: "eq_selected sel c \<Longrightarrow> sel = Some c"
  by (cases sel) (auto dest: cell_eq_imp_eq)

lemma select_symbol_cases:
  "select_symbol u df =
     (if ''Symbol'' \<in> set (columns df)
      then symbol_filter df (selectbox u (unique (map (\<lambda>r. cell_at r ''Symbol'') (rows df))))
      else Inr df)"
  by (simp add: select_symbol_def col_def Let_def)

lemma sample_selected:
  "selectbox (sample_ui UploadCSV (Some two_symbols))
     (unique (map (\<lambda>r. cell_at r ''Symbol'') (rows two_symbols))) = Some (Str ''SONY'')"
  by (simp add: sample_ui_def first_option_def unique_def two_symbols_def day1_row_def
      day2_row_def other_row_def cell_at_def)

text \<open>
  C6. On a table with a Symbol column the symbol step succeeds and keeps exactly the rows
  whose symbol \<open>==\<close> the selected one: every row of the output has the selected symbol,
  no row of any other symbol is in the output, and when the selected value is not a
  missing-value marker the output is exactly the rows of the input with that symbol.
\<close>

theorem select_symbol_exact:
  assumes "''Symbol'' \<in> set (columns df)"
    and "selected_stock = selectbox u (unique (map (\<lambda>r. cell_at r ''Symbol'') (rows df)))"
  shows "\<exists>d. select_symbol u df = Inr d \<and>
           rows d = filter (\<lambda>r. eq_selected selected_stock (cell_at r ''Symbol'')) (rows df) \<and>
           (\<forall>r\<in>set (rows d). selected_stock = Some (cell_at r ''Symbol'')) \<and>
           (\<forall>s. selected_stock \<noteq> Some s \<longrightarrow>
              filter (\<lambda>r. cell_at r ''Symbol'' = s) (rows d) = []) \<and>
           (\<forall>s. selected_stock = Some s \<and> notna s \<longrightarrow>
              rows d = filter (\<lambda>r. cell_at r ''Symbol'' = s) (rows df))"
proof -
  let ?d = "df\<lparr>rows := filter (\<lambda>r. eq_selected selected_stock (cell_at r ''Symbol'')) (rows df)\<rparr>"
  have "select_symbol u df = Inr ?d"
    using assms by (simp add: select_symbol_cases symbol_filter_Inr_iff)
  moreover have "\<forall>r\<in>set (rows ?d). selected_stock = Some (cell_at r ''Symbol'')"
    by (auto dest: eq_selected_imp)
  moreover have "\<forall>s. selected_stock \<noteq> Some s \<longrightarrow>
      filter (\<lambda>r. cell_at r ''Symbol'' = s) (rows ?d) = []"
    by (auto simp: filter_empty_conv dest: eq_selected_imp)
  moreover have "\<forall>s. selected_stock = Some s \<and> notna s \<longrightarrow>
      rows ?d = filter (\<lambda>r. cell_at r ''Symbol'' = s) (rows df)"
    by (auto simp: cell_eq_notna)
  ultimately show ?thesis
    by (intro exI [of _ ?d]) simp
qed

theorem select_symbol_exact_witness:
  "''Symbol'' \<in> set (columns two_symbols) \<and>
   Some (Str ''SONY'') = selectbox (sample_ui UploadCSV (Some two_symbols))
      (unique (map (\<lambda>r. cell_at r ''Symbol'') (rows two_symbols))) \<and>
   notna (Str ''SONY'') \<and>
   (\<exists>d. select_symbol (sample_ui UploadCSV (Some two_symbols)) two_symbols = Inr d \<and>
      rows d = [day1_row, day2_row] \<and>
      filter (\<lambda>r. cell_at r ''Symbol'' = Str ''TOYOTA'') (rows d) = [])"
proof -
  have c: "''Symbol'' \<in> set (columns two_symbols)"
    by (simp add: two_symbols_def)
  have s: "Some (Str ''SONY'') = selectbox (sample_ui UploadCSV (Some two_symbols))
      (unique (map (\<lambda>r. cell_at r ''Symbol'') (rows two_symbols)))"
    by (simp add: sample_selected)
  have n: "notna (Str ''SONY'')"
    by (simp add: notna_def)
  have f: "filter (\<lambda>r. cell_at r ''Symbol'' = Str ''SONY'') (rows two_symbols)
      = [day1_row, day2_row]"
    by (simp add: two_symbols_def day1_row_def day2_row_def other_row_def cell_at_def)
  obtain d where d: "select_symbol (sample_ui UploadCSV (Some two_symbols)) two_symbols = Inr d"
    and other: "\<forall>s. Some (Str ''SONY'') \<noteq> Some s \<longrightarrow>
        filter (\<lambda>r. cell_at r ''Symbol'' = s) (rows d) = []"
    and exact: "\<forall>s. Some (Str ''SONY'') = Some s \<and> notna s \<longrightarrow>
        rows d = filter (\<lambda>r. cell_at r ''Symbol'' = s) (rows two_symbols)"
    using select_symbol_exact [OF c s] by blast
  have "rows d = [day1_row, day2_row]"
    using exact n f by simp
  moreover have "filter (\<lambda>r. cell_at r ''Symbol'' = Str ''TOYOTA'') (rows d) = []"
    using other by simp
  ultimately show ?thesis
    using c s n d by blast
qed

subsection \<open>Both filters\<close>

lemma select_rows_Inr_iff:
  "select_rows df sel us ue = Inr d \<longleftrightarrow>
     ''Date'' \<in> set (columns df) \<and>
     (\<forall>r\<in>set (kept df sel). datetime_like (cell_at r ''Date'')) \<and>
     d = df\<lparr>rows := filter (\<lambda>r. in_range us ue (row_datetime r)) (kept df sel)\<rparr>"
  by (auto simp: select_rows_def kept_def bind_err_Inr_iff symbol_filter_Inr_iff
      date_filter_Inr_iff)

lemma filter_absorb: "filter P (filter Q (filter P xs)) = filter Q (filter P xs)"
  by (induction xs) simp_all

lemma select_rows_again:
  assumes "select_rows df sel us ue = Inr d"
  shows "select_rows d sel us ue = Inr d"
proof -
  let ?Q = "\<lambda>r. in_range us ue (row_datetime r)"
  have d: "d = df\<lparr>rows := filter ?Q (kept df sel)\<rparr>"
    and cols: "''Date'' \<in> set (columns df)"
    and like: "\<forall>r\<in>set (kept df sel). datetime_like (cell_at r ''Date'')"
    using assms by (simp_all add: select_rows_Inr_iff)
  have cd: "columns d = columns df" and rd: "rows d = filter ?Q (kept df sel)"
    by (simp_all add: d)
  have k: "kept d sel = rows d"
    unfolding kept_def cd rd by (simp only: filter_absorb split: if_split) blast
  have q: "filter ?Q (rows d) = rows d"
    unfolding rd by simp
  have "d = d\<lparr>rows := filter ?Q (kept d sel)\<rparr>"
    unfolding k q by simp
  moreover have "\<forall>r\<in>set (kept d sel). datetime_like (cell_at r ''Date'')"
    unfolding k rd using like by simp
  ultimately show ?thesis
    unfolding select_rows_Inr_iff cd using cols by blast
qed

lemma sample_select_rows:
  "select_rows two_symbols (Some (Str ''SONY'')) (Date 2024 3 4) (Date 2024 3 5) = Inr sony_rows"
  by (simp add: select_rows_def symbol_filter_def date_filter_def two_symbols_def sony_rows_def
      day1_row_def day2_row_def other_row_def col_def cell_at_def datetimes_def
      boolean_index_def less_eq_date_def ymd_def)

text \<open>
  C7. Filtering is idempotent: the symbol and date filter applied to its own result, with
  the same selection and the same dates, gives that result again (and where the filter
  raises there is no result to filter again).
\<close>

theorem select_rows_idempotent:
  "bind_err (select_rows df selected_stock user_start user_end)
     (\<lambda>d. select_rows d selected_stock user_start user_end)
   = select_rows df selected_stock user_start user_end"
proof (cases "select_rows df selected_stock user_start user_end")
  case (Inl err)
  then show ?thesis by simp
next
  case (Inr d)
  then show ?thesis by (simp add: select_rows_again)
qed

theorem select_rows_idempotent_witness:
  "select_rows two_symbols (Some (Str ''SONY'')) (Date 2024 3 4) (Date 2024 3 5) = Inr sony_rows \<and>
   select_rows sony_rows (Some (Str ''SONY'')) (Date 2024 3 4) (Date 2024 3 5) = Inr sony_rows"
  using select_rows_idempotent [of two_symbols "Some (Str ''SONY'')" "Date 2024 3 4" "Date 2024 3 5"]
  by (simp add: sample_select_rows)

lemma select_rows_subseq:
  assumes "select_rows df sel us ue = Inr d"
  shows "subseq (rows d) (rows df)"
proof -
  have "rows d = filter (\<lambda>r. in_range us ue (row_datetime r)) (kept df sel)"
    using assms by (simp add: select_rows_Inr_iff)
  then have "subseq (rows d) (kept df sel)"
    by simp
  moreover have "subseq (kept df sel) (rows df)"
    by (simp add: kept_def)
  ultimately show ?thesis
    by (rule subseq_order.trans)
qed

lemma explore_Inr:
  assumes "explore u df = (Inr d, evs)"
  shows "\<exists>df1 us ue. select_symbol u df = Inr df1 \<and> date_filter df1 us ue = Inr d"
proof (cases "select_symbol u df")
  case (Inl err)
  then show ?thesis using assms by (simp add: explore_def)
next
  case s: (Inr df1)
  show ?thesis
  proof (cases "col df1 ''Date''")
    case (Inl err)
    then show ?thesis using assms s by (simp add: explore_def)
  next
    case c: (Inr dates)
    show ?thesis
    proof (cases "datetimes dates")
      case (Inl err)
      then show ?thesis using assms s c by (simp add: explore_def)
    next
      case (Inr ts)
      then show ?thesis
        using assms s c by (auto simp: explore_def Let_def split: sum.splits)
    qed
  qed
qed

lemma explore_select_rows:
  assumes "explore u df = (Inr d, evs)"
  shows "\<exists>sel us ue. select_rows df sel us ue = Inr d"
proof -
  obtain df1 us ue where s: "select_symbol u df = Inr df1" and f: "date_filter df1 us ue = Inr d"
    using explore_Inr [OF assms] by blast
  let ?sel = "selectbox u (unique (map (\<lambda>r. cell_at r ''Symbol'') (rows df)))"
  have "select_rows df ?sel us ue = Inr d"
    using s f unfolding select_rows_def select_symbol_cases by simp
  then show ?thesis by blast
qed

lemma sample_explore:
  "explore (sample_ui UploadCSV (Some two_symbols)) two_symbols
     = (Inr sony_rows, [Export sony_rows, Render Static sony_rows])"
  by (simp add: explore_def select_symbol_def symbol_filter_def date_filter_def
      two_symbols_def sony_rows_def day1_row_def day2_row_def other_row_def col_def cell_at_def
      datetimes_def boolean_index_def less_eq_date_def ymd_def sample_ui_def first_option_def unique_def
      series_min_def series_max_def List.map_filter_simps default_date_def min_def max_def
      less_eq_date_def less_date_def ymd_def Let_def)

text \<open>
  C8. The filters are stable: the rows the script hands to the download button and to the
  chart are rows of the loaded table, in the order they have there.
\<close>

theorem filters_preserve_order:
  assumes "explore u df = (Inr d, evs)"
  shows "subseq (rows d) (rows df)"
proof -
  obtain sel us ue where "select_rows df sel us ue = Inr d"
    using explore_select_rows [OF assms] by blast
  then show ?thesis by (rule select_rows_subseq)
qed

theorem filters_preserve_order_witness:
  "explore (sample_ui UploadCSV (Some two_symbols)) two_symbols
     = (Inr sony_rows, [Export sony_rows, Render Static sony_rows]) \<and>
   subseq (rows sony_rows) (rows two_symbols) \<and>
   rows sony_rows = [day1_row, day2_row] \<and>
   rows two_symbols = [day1_row, other_row, day2_row]"
proof -
  have h: "explore (sample_ui UploadCSV (Some two_symbols)) two_symbols
     = (Inr sony_rows, [Export sony_rows, Render Static sony_rows])"
    by (rule sample_explore)
  show ?thesis
    using h filters_preserve_order [OF h] by (simp add: sony_rows_def two_symbols_def)
qed

subsection \<open>Loading from the provider\<close>

lemma tag_frame:
  "set_col (reset_index bars) ''Symbol'' (replicate (length (rows (reset_index bars))) (Str name))
     = \<lparr>columns = price_columns, rows = map (tagged_row name) bars\<rparr>"
  by (simp add: set_col_def reset_index_def zip_replicate_length [of "map bar_row bars", simplified]
      price_columns_def tagged_row_def bar_row_def comp_def)

lemma fetch_all_columns:
  "f \<in> set (fst (fetch_all e cs)) \<Longrightarrow> columns f = price_columns"
proof (induction cs)
  case Nil
  then show ?case by simp
next
  case (Cons c cs)
  obtain name ticker where c: "c = (name, ticker)" by (cases c)
  show ?case
    using Cons
    by (auto simp: c tag_frame Let_def split: prod.splits sum.splits)
qed

lemma fetch_all_rows:
  "concat (map rows (fst (fetch_all e cs))) =
     map (\<lambda>p. tagged_row (fst p) (snd p)) (fetched e cs)"
proof (induction cs)
  case Nil
  show ?case by simp
next
  case (Cons c cs)
  obtain name ticker where c: "c = (name, ticker)" by (cases c)
  show ?case
    using Cons
    by (auto simp: c tag_frame Let_def comp_def split: prod.splits sum.splits)
qed

lemma fetch_all_nonempty:
  "(name, ticker) \<in> set cs \<Longrightarrow> download e ticker start_date end_date = Inr bars \<Longrightarrow>
     fst (fetch_all e cs) \<noteq> []"
  by (induction cs) (auto simp: Let_def split: prod.splits sum.splits)

lemma fetch_all_empty:
  "(\<And>name ticker. (name, ticker) \<in> set cs \<Longrightarrow> \<exists>msg. download e ticker start_date end_date = Inl msg) \<Longrightarrow>
     fst (fetch_all e cs) = []"
proof (induction cs)
  case Nil
  show ?case by simp
next
  case (Cons c cs)
  obtain name ticker where c: "c = (name, ticker)" by (cases c)
  from Cons.prems [of name ticker] obtain msg where "download e ticker start_date end_date = Inl msg"
    by (auto simp: c)
  moreover have "fst (fetch_all e cs) = []"
    using Cons.IH Cons.prems by auto
  ultimately show ?case
    by (auto simp: c split: prod.splits)
qed

lemma fetch_all_warning:
  "(name, ticker) \<in> set cs \<Longrightarrow> download e ticker start_date end_date = Inl msg \<Longrightarrow>
     Warning (failed_to_load name msg) \<in> set (snd (fetch_all e cs))"
  by (induction cs) (auto simp: Let_def split: prod.splits sum.splits)

lemma concat_frames_fetched:
  assumes "fst (fetch_all e cs) \<noteq> []"
  shows "\<exists>df. concat_frames (fst (fetch_all e cs)) = Inr df \<and>
           set (columns df) = set price_columns \<and>
           rows df = map (\<lambda>p. tagged_row (fst p) (snd p)) (fetched e cs)"
proof -
  obtain f fs where ffs: "fst (fetch_all e cs) = f # fs"
    using assms by (cases "fst (fetch_all e cs)") auto
  have "\<And>g. g \<in> set (f # fs) \<Longrightarrow> columns g = price_columns"
    using fetch_all_columns [of _ e cs] by (simp add: ffs)
  then have "set (concat (map columns (f # fs))) = set price_columns"
    by auto
  then show ?thesis
    using assms fetch_all_rows [of e cs] by (simp add: concat_frames_def ffs)
qed

lemma transform_tagged:
  assumes cols: "set (columns df) = set price_columns"
    and rws: "rows df = map (\<lambda>p. tagged_row (fst p) (snd p)) nbs"
  shows "\<exists>d. transform e df = Inr d \<and> rows d = map (\<lambda>p. loaded_row (fst p) (snd p)) nbs"
proof -
  let ?t = "\<lambda>p. tagged_row (fst p) (snd p)"
  let ?change = "\<lambda>p. Num (bar_close (snd p) - bar_open (snd p))"
  let ?spread = "\<lambda>p. Num (bar_high (snd p) - bar_low (snd p))"
  let ?r1 = "\<lambda>p. AList.update ''Price_change'' (?change p) (?t p)"
  let ?r2 = "\<lambda>p. AList.update ''High_Low_Spread'' (?spread p) (?r1 p)"
  let ?r3 = "\<lambda>p. AList.update ''Date'' (Ts (bar_date (snd p))) (?r2 p)"
  define df1 where "df1 = set_col df ''Price_change'' (map ?change nbs)"
  define df2 where "df2 = set_col df1 ''High_Low_Spread'' (map ?spread nbs)"
  have in_cols: "''Close'' \<in> set (columns df)" "''Open'' \<in> set (columns df)"
    "''High'' \<in> set (columns df)" "''Low'' \<in> set (columns df)" "''Date'' \<in> set (columns df)"
    by (simp_all add: cols price_columns_def)
  have close: "col df ''Close'' = Inr (map (\<lambda>p. Num (bar_close (snd p))) nbs)"
    using col_rows_map [OF in_cols(1) rws]
    by (simp add: cell_at_def tagged_row_def bar_row_def)
  have opn: "col df ''Open'' = Inr (map (\<lambda>p. Num (bar_open (snd p))) nbs)"
    using col_rows_map [OF in_cols(2) rws]
    by (simp add: cell_at_def tagged_row_def bar_row_def)
  have change: "series_sub (map (\<lambda>p. Num (bar_close (snd p))) nbs)
      (map (\<lambda>p. Num (bar_open (snd p))) nbs) = Inr (map ?change nbs)"
    by (rule series_sub_map) simp
  have rows1: "rows df1 = map ?r1 nbs"
    unfolding df1_def by (rule set_col_rows_map [OF rws])
  have cols1: "''High'' \<in> set (columns df1)" "''Low'' \<in> set (columns df1)"
    using in_cols by (simp_all add: df1_def set_col_columns)
  have high: "col df1 ''High'' = Inr (map (\<lambda>p. Num (bar_high (snd p))) nbs)"
    using col_rows_map [OF cols1(1) rows1]
    by (simp add: cell_at_def tagged_row_def bar_row_def)
  have low: "col df1 ''Low'' = Inr (map (\<lambda>p. Num (bar_low (snd p))) nbs)"
    using col_rows_map [OF cols1(2) rows1]
    by (simp add: cell_at_def tagged_row_def bar_row_def)
  have spread: "series_sub (map (\<lambda>p. Num (bar_high (snd p))) nbs)
      (map (\<lambda>p. Num (bar_low (snd p))) nbs) = Inr (map ?spread nbs)"
    by (rule series_sub_map) simp
  have rows2: "rows df2 = map ?r2 nbs"
    unfolding df2_def by (rule set_col_rows_map [OF rows1])
  have cols2: "''Date'' \<in> set (columns df2)"
    using in_cols by (simp add: df2_def df1_def set_col_columns)
  have dates: "col df2 ''Date'' = Inr (map (\<lambda>p. Ts (bar_date (snd p))) nbs)"
    using col_rows_map [OF cols2 rows2]
    by (simp add: cell_at_def tagged_row_def bar_row_def)
  have dts: "to_datetime (parse_datetime e) (map (\<lambda>p. Ts (bar_date (snd p))) nbs)
      = Inr (map (\<lambda>p. Ts (bar_date (snd p))) nbs)"
    by (rule to_datetime_map) simp
  have result: "transform e df = Inr (set_col df2 ''Date'' (map (\<lambda>p. Ts (bar_date (snd p))) nbs))"
    by (simp add: transform_def close opn change df1_def [symmetric] high low spread
        df2_def [symmetric] dates dts)
  have "rows (set_col df2 ''Date'' (map (\<lambda>p. Ts (bar_date (snd p))) nbs)) = map ?r3 nbs"
    by (rule set_col_rows_map [OF rows2])
  also have "\<dots> = map (\<lambda>p. loaded_row (fst p) (snd p)) nbs"
    by (simp add: loaded_row_def tagged_row_def bar_row_def)
  finally show ?thesis
    using result by simp
qed

lemma load_tokyo_data_alt:
  "load_tokyo_data e =
     (bind_err (concat_frames (fst (fetch_all e companies))) (transform e),
      snd (fetch_all e companies))"
  by (simp add: load_tokyo_data_def split: prod.splits)

lemma load_tokyo_data_rows:
  assumes "fst (fetch_all e companies) \<noteq> []"
  shows "\<exists>d. fst (load_tokyo_data e) = Inr d \<and>
           rows d = map (\<lambda>p. loaded_row (fst p) (snd p)) (fetched e companies)"
proof -
  obtain df where df: "concat_frames (fst (fetch_all e companies)) = Inr df"
    "set (columns df) = set price_columns"
    "rows df = map (\<lambda>p. tagged_row (fst p) (snd p)) (fetched e companies)"
    using concat_frames_fetched [OF assms] by blast
  show ?thesis
    using transform_tagged [OF df(2) df(3), of e] df(1)
    by (simp add: load_tokyo_data_alt)
qed

lemma load_tokyo_data_empty:
  assumes "fst (fetch_all e companies) = []"
  shows "fst (load_tokyo_data e) = Inl ValueError"
  using assms by (simp add: load_tokyo_data_alt concat_frames_def)

lemma load_tokyo_data_events: "snd (load_tokyo_data e) = snd (fetch_all e companies)"
  by (simp add: load_tokyo_data_alt)

lemma load_tokyo_data_Inr_rows:
  assumes "fst (load_tokyo_data e) = Inr d"
  shows "rows d = map (\<lambda>p. loaded_row (fst p) (snd p)) (fetched e companies)"
proof (cases "fst (fetch_all e companies) = []")
  case True
  then show ?thesis using assms load_tokyo_data_empty [of e] by simp
next
  case False
  then show ?thesis using assms load_tokyo_data_rows [of e] by auto
qed

lemma loaded_row_cells:
  "cell_at (loaded_row n b) ''Close'' = Num (bar_close b)"
  "cell_at (loaded_row n b) ''Open'' = Num (bar_open b)"
  "cell_at (loaded_row n b) ''High'' = Num (bar_high b)"
  "cell_at (loaded_row n b) ''Low'' = Num (bar_low b)"
  "cell_at (loaded_row n b) ''Price_change'' = Num (bar_close b - bar_open b)"
  "cell_at (loaded_row n b) ''High_Low_Spread'' = Num (bar_high b - bar_low b)"
  "cell_at (loaded_row n b) ''Symbol'' = Str n"
  "cell_at (loaded_row n b) ''Date'' = Ts (bar_date b)"
  by (simp_all add: cell_at_def loaded_row_def tagged_row_def bar_row_def)

lemma sample_load: "fst (load_tokyo_data sample_env) = Inr sample_loaded"
  by (simp add: load_tokyo_data_def companies_def sample_env_def sample_download_def
      sample_bar_def sample_loaded_def reset_index_def bar_row_def set_col_def
      concat_frames_def unique_def transform_def col_def cell_at_def series_sub_def
      to_datetime_def Let_def)

lemma to_datetime_cell_like: "to_datetime_cell p c = Inr v \<Longrightarrow> datetime_like v"
  by (cases c) (auto simp: datetime_like_def split: option.splits cell.splits)

lemma traverse_results:
  "traverse f xs = Inr ys \<Longrightarrow> y \<in> set ys \<Longrightarrow> \<exists>x. f x = Inr y"
proof (induction xs arbitrary: ys)
  case Nil
  then show ?case by simp
next
  case (Cons x xs)
  then show ?case by (auto split: sum.splits)
qed

lemma to_datetime_like:
  assumes "to_datetime p cs = Inr vs"
  shows "\<forall>v\<in>set vs. datetime_like v"
proof
  fix v assume "v \<in> set vs"
  then obtain c where "to_datetime_cell p c = Inr v"
    using assms traverse_results [of "to_datetime_cell p" cs vs v] by (auto simp: to_datetime_def)
  then show "datetime_like v" by (rule to_datetime_cell_like)
qed

lemma cell_at_update: "cell_at (AList.update c v r) c = v"
  by (simp add: cell_at_def update_conv')

lemma set_col_cells:
  assumes "\<forall>v\<in>set vs. P v"
  shows "\<forall>r\<in>set (rows (set_col df c vs)). P (cell_at r c)"
proof
  fix r assume "r \<in> set (rows (set_col df c vs))"
  then obtain r0 v where "(r0, v) \<in> set (zip (rows df) vs)" and r: "r = AList.update c v r0"
    by (auto simp: set_col_def)
  then have "v \<in> set vs"
    by (auto dest: set_zip_rightD)
  then show "P (cell_at r c)"
    using assms by (simp add: r cell_at_update)
qed

lemma load_upload_date_column:
  assumes "load_upload e file = (Inr df, evs)" and "''Date'' \<in> set (columns df)"
  shows "\<forall>r\<in>set (rows df). datetime_like (cell_at r ''Date'')"
proof (cases "''Date'' \<in> set (columns file)")
  case False
  then show ?thesis using assms by (simp add: load_upload_def)
next
  case True
  let ?dates = "map (\<lambda>r. cell_at r ''Date'') (rows file)"
  show ?thesis
  proof (cases "to_datetime (parse_datetime e) ?dates")
    case (Inl err)
    then show ?thesis using assms(1) True by (simp add: load_upload_def col_def)
  next
    case (Inr dts)
    then have df: "df = set_col file ''Date'' dts"
      using assms(1) True by (simp add: load_upload_def col_def)
    show ?thesis
      unfolding df using to_datetime_like [OF Inr] by (rule set_col_cells)
  qed
qed

lemma loaded_date_column:
  assumes "load_data e u = (Inr (Some df), evs)"
  shows "''Date'' \<in> set (columns df) \<longrightarrow>
           (\<forall>r\<in>set (rows df). datetime_like (cell_at r ''Date''))"
proof (cases "data_source u")
  case TokyoStockDataset
  then have "bind_err (fst (load_tokyo_data e)) (\<lambda>df. Inr (Some df)) = Inr (Some df)"
    using assms by (cases "load_tokyo_data e") (simp add: load_data_def)
  then have "fst (load_tokyo_data e) = Inr df"
    by (cases "fst (load_tokyo_data e)") simp_all
  then have "rows df = map (\<lambda>p. loaded_row (fst p) (snd p)) (fetched e companies)"
    by (rule load_tokyo_data_Inr_rows)
  then show ?thesis
    by (simp add: loaded_row_cells datetime_like_def)
next
  case UploadCSV
  show ?thesis
  proof (cases "uploaded_file u")
    case None
    then show ?thesis using assms UploadCSV by (simp add: load_data_def)
  next
    case (Some f)
    then have "bind_err (fst (load_upload e f)) (\<lambda>df. Inr (Some df)) = Inr (Some df)"
      using assms UploadCSV by (cases "load_upload e f") (simp add: load_data_def)
    then have "fst (load_upload e f) = Inr df"
      by (cases "fst (load_upload e f)") simp_all
    then have "load_upload e f = (Inr df, snd (load_upload e f))"
      by (cases "load_upload e f") simp
    then show ?thesis
      using load_upload_date_column by blast
  qed
qed

text \<open>
  C1, as the script has it. In every row of the table that \<open>load_tokyo_data\<close> returns,
  the price change is the close minus the open and the high-low spread is the high minus
  the low. The upload branch derives no column.
\<close>

theorem remote_rows_derived:
  assumes "fst (load_tokyo_data e) = Inr d" and "r \<in> set (rows d)"
  shows "derived_ok r \<and>
         (\<exists>c opn. cell_at r ''Close'' = Num c \<and> cell_at r ''Open'' = Num opn \<and>
            cell_at r ''Price_change'' = Num (c - opn)) \<and>
         (\<exists>h l. cell_at r ''High'' = Num h \<and> cell_at r ''Low'' = Num l \<and>
            cell_at r ''High_Low_Spread'' = Num (h - l))"
proof -
  obtain n b where "r = loaded_row n b"
    using assms load_tokyo_data_Inr_rows [OF assms(1)] by auto
  then show ?thesis
    by (simp add: derived_ok_def loaded_row_cells)
qed

theorem remote_rows_derived_witness:
  "fst (load_tokyo_data sample_env) = Inr sample_loaded \<and>
   hd (rows sample_loaded) \<in> set (rows sample_loaded) \<and>
   derived_ok (hd (rows sample_loaded)) \<and>
   cell_at (hd (rows sample_loaded)) ''Price_change'' = Num 5 \<and>
   cell_at (hd (rows sample_loaded)) ''High_Low_Spread'' = Num 15"
proof -
  have h: "fst (load_tokyo_data sample_env) = Inr sample_loaded"
    by (rule sample_load)
  have m: "hd (rows sample_loaded) \<in> set (rows sample_loaded)"
    by (simp add: sample_loaded_def)
  have "cell_at (hd (rows sample_loaded)) ''Price_change'' = Num 5"
    "cell_at (hd (rows sample_loaded)) ''High_Low_Spread'' = Num 15"
    by (simp_all add: sample_loaded_def cell_at_def)
  then show ?thesis
    using h m remote_rows_derived [OF h m] by blast
qed

text \<open>
  C1 as it is written, for uploaded tables too, fails: an uploaded table with the four
  price columns is loaded with its Date column converted and nothing else; its row has
  close 3 and open 1 and no price change.
\<close>

theorem upload_rows_not_derived:
  "load_data sample_env (sample_ui UploadCSV (Some upload_prices))
     = (Inr (Some upload_prices_loaded), [Success ''Custom dataset loaded!'']) \<and>
   \<not> list_all derived_ok (rows upload_prices_loaded)"
  by (simp add: load_data_def load_upload_def sample_ui_def sample_env_def sample_parse_def
      upload_prices_def upload_prices_loaded_def col_def cell_at_def to_datetime_def
      set_col_def derived_ok_def)

lemma fetched_absent:
  "a \<notin> fst ` set cs \<Longrightarrow> filter (\<lambda>p. fst p = a) (fetched e cs) = []"
proof (induction cs)
  case Nil
  show ?case by simp
next
  case (Cons c cs)
  obtain name ticker where c: "c = (name, ticker)" by (cases c)
  show ?case
    using Cons by (auto simp: c filter_empty_conv split: sum.splits)
qed

lemma filter_Pair_same: "filter (\<lambda>p. fst p = a) (map (Pair a) bars) = map (Pair a) bars"
  by (induction bars) simp_all

lemma filter_Pair_other: "name \<noteq> a \<Longrightarrow> filter (\<lambda>p. fst p = a) (map (Pair name) bars) = []"
  by (induction bars) simp_all

lemma fetched_symbol:
  "distinct (map fst cs) \<Longrightarrow> (a, ticker) \<in> set cs \<Longrightarrow>
     filter (\<lambda>p. fst p = a) (fetched e cs) =
       (case download e ticker start_date end_date of
          Inl msg \<Rightarrow> [] | Inr bars \<Rightarrow> map (Pair a) bars)"
proof (induction cs)
  case Nil
  then show ?case by simp
next
  case (Cons c cs)
  obtain name t where c: "c = (name, t)" by (cases c)
  show ?case
  proof (cases "name = a")
    case True
    then have t: "t = ticker"
      using Cons.prems by (auto simp: c image_iff)
    have "a \<notin> fst ` set cs"
      using Cons.prems True by (simp add: c)
    then have "filter (\<lambda>p. fst p = a) (fetched e cs) = []"
      by (rule fetched_absent)
    then show ?thesis
      by (simp add: c True t filter_Pair_same split: sum.splits)
  next
    case False
    then have "(a, ticker) \<in> set cs"
      using Cons.prems by (auto simp: c)
    then have "filter (\<lambda>p. fst p = a) (fetched e cs) =
        (case download e ticker start_date end_date of Inl msg \<Rightarrow> [] | Inr bars \<Rightarrow> map (Pair a) bars)"
      using Cons.IH Cons.prems by simp
    then show ?thesis
      using False by (simp add: c filter_Pair_other split: sum.splits)
  qed
qed

lemma distinct_companies: "distinct (map fst companies)"
  by (simp add: companies_def)

lemma loaded_rows_of_symbol:
  "filter (\<lambda>r. cell_at r ''Symbol'' = Str a) (map (\<lambda>p. loaded_row (fst p) (snd p)) nbs) =
     map (\<lambda>p. loaded_row (fst p) (snd p)) (filter (\<lambda>p. fst p = a) nbs)"
  by (induction nbs) (simp_all add: loaded_row_cells)

text \<open>
  C4. When the download succeeds for company \<open>a\<close> and raises for company \<open>b\<close>, the
  load as a whole succeeds: the rows of \<open>a\<close> in the table are the bars of \<open>a\<close>, in their
  order and with the derived columns, the table has no row of \<open>b\<close>, and the warning for
  \<open>b\<close> is among the warnings shown.
\<close>

theorem fetch_failure_isolated:
  assumes a: "(a, ticker_a) \<in> set companies"
    and b: "(b, ticker_b) \<in> set companies"
    and ok: "download e ticker_a start_date end_date = Inr bars"
    and failed: "download e ticker_b start_date end_date = Inl msg"
  shows "\<exists>d. fst (load_tokyo_data e) = Inr d \<and>
           filter (\<lambda>r. cell_at r ''Symbol'' = Str a) (rows d) = map (loaded_row a) bars \<and>
           filter (\<lambda>r. cell_at r ''Symbol'' = Str b) (rows d) = [] \<and>
           Warning (failed_to_load b msg) \<in> set (snd (load_tokyo_data e))"
proof -
  have "fst (fetch_all e companies) \<noteq> []"
    using a ok by (rule fetch_all_nonempty)
  then obtain d where d: "fst (load_tokyo_data e) = Inr d"
    and rws: "rows d = map (\<lambda>p. loaded_row (fst p) (snd p)) (fetched e companies)"
    using load_tokyo_data_rows by blast
  have "filter (\<lambda>r. cell_at r ''Symbol'' = Str a) (rows d) = map (loaded_row a) bars"
    using fetched_symbol [OF distinct_companies a, of e] ok
    by (simp add: rws loaded_rows_of_symbol comp_def)
  moreover have "filter (\<lambda>r. cell_at r ''Symbol'' = Str b) (rows d) = []"
    using fetched_symbol [OF distinct_companies b, of e] failed
    by (simp add: rws loaded_rows_of_symbol)
  moreover have "Warning (failed_to_load b msg) \<in> set (snd (load_tokyo_data e))"
    using fetch_all_warning [OF b failed] by (simp add: load_tokyo_data_events)
  ultimately show ?thesis
    using d by blast
qed

theorem fetch_failure_isolated_witness:
  "(''NINTENDO'', ''7974.T'') \<in> set companies \<and>
   (''SONY'', ''6758.T'') \<in> set companies \<and>
   download sample_env ''7974.T'' start_date end_date = Inr [sample_bar] \<and>
   download sample_env ''6758.T'' start_date end_date = Inl ''no data'' \<and>
   (\<exists>d. fst (load_tokyo_data sample_env) = Inr d \<and>
      filter (\<lambda>r. cell_at r ''Symbol'' = Str ''NINTENDO'') (rows d)
        = map (loaded_row ''NINTENDO'') [sample_bar] \<and>
      filter (\<lambda>r. cell_at r ''Symbol'' = Str ''SONY'') (rows d) = [] \<and>
      Warning (failed_to_load ''SONY'' ''no data'') \<in> set (snd (load_tokyo_data sample_env)))"
proof -
  have a: "(''NINTENDO'', ''7974.T'') \<in> set companies"
    by (simp add: companies_def)
  have b: "(''SONY'', ''6758.T'') \<in> set companies"
    by (simp add: companies_def)
  have ok: "download sample_env ''7974.T'' start_date end_date = Inr [sample_bar]"
    by (simp add: sample_env_def sample_download_def)
  have failed: "download sample_env ''6758.T'' start_date end_date = Inl ''no data''"
    by (simp add: sample_env_def sample_download_def)
  show ?thesis
    using a b ok failed fetch_failure_isolated [OF a b ok failed] by blast
qed

subsection \<open>The whole run\<close>

text \<open>
  C3 says that no input makes the script raise. Two inputs do. An uploaded table without
  a Date column passes the guarded conversion and then reaches \<open>df['Date']\<close> of the date
  range, which raises KeyError. When the download raises for every ticker, the list of
  frames is empty and \<open>pd.concat\<close> raises ValueError.
\<close>

theorem unhandled_exceptions:
  "run sample_env (sample_ui UploadCSV (Some upload_no_date))
     = (Inl (KeyError ''Date''), [Success ''Custom dataset loaded!'']) \<and>
   fst (run offline_env (sample_ui TokyoStockDataset None)) = Inl ValueError"
proof -
  have "run sample_env (sample_ui UploadCSV (Some upload_no_date))
     = (Inl (KeyError ''Date''), [Success ''Custom dataset loaded!''])"
    by (simp add: run_def load_data_def load_upload_def sample_ui_def upload_no_date_def
        explore_def select_symbol_def col_def)
  moreover have "fst (fetch_all offline_env companies) = []"
    by (rule fetch_all_empty) (simp add: offline_env_def failing_download_def)
  then have "fst (load_tokyo_data offline_env) = Inl ValueError"
    by (rule load_tokyo_data_empty)
  then have "fst (run offline_env (sample_ui TokyoStockDataset None)) = Inl ValueError"
    by (cases "load_tokyo_data offline_env") (simp add: run_def load_data_def sample_ui_def)
  ultimately show ?thesis by simp
qed

text \<open>
  C9. In upload mode without a file the run stops after the prompt: it raises nothing, and
  the prompt is all it shows; nothing is filtered, exported or drawn.
\<close>

theorem upload_without_file_stops:
  assumes "data_source u = UploadCSV" and "uploaded_file u = None"
  shows "run e u = (Inr Stopped, [Info ''Please upload a CSV file to continue.''])"
  using assms by (simp add: run_def load_data_def)

theorem upload_without_file_stops_witness:
  "data_source (sample_ui UploadCSV None) = UploadCSV \<and>
   uploaded_file (sample_ui UploadCSV None) = None \<and>
   run sample_env (sample_ui UploadCSV None)
     = (Inr Stopped, [Info ''Please upload a CSV file to continue.''])"
proof -
  have s: "data_source (sample_ui UploadCSV None) = UploadCSV"
    by (simp add: sample_ui_def)
  have f: "uploaded_file (sample_ui UploadCSV None) = None"
    by (simp add: sample_ui_def)
  show ?thesis
    using s f upload_without_file_stops [OF s f, of sample_env] by simp
qed

end
